theory Spec2Isabelle
  imports Complex_Main "HOL-Library.Char_ord" "HOL-Library.List_Lexorder"
    "HOL-Library.Product_Lexorder" "HOL-Library.Word"
begin

section \<open>Python and numpy values\<close>

text \<open>
  The development embeds \<^verbatim>\<open>scripts/plot_complexity.py\<close>: the model catalog, the fitting
  and scoring loop \<open>fit_complexity_models\<close>, the selector \<open>determine_best_model\<close>, the
  aggregation in \<open>load_data\<close>, the per-method loop of \<open>plot_individual_methods\<close> and the
  best-fit section of \<open>generate_summary_report\<close>.

  A Python float that holds a finite number is a \<^typ>\<open>real\<close>. A float that may be
  non-finite is a \<^typ>\<open>real option\<close>, where \<open>None\<close> stands for \<open>nan\<close> or an infinity:
  numpy produces these values with a warning and does not raise. Exceptions are values of
  \<open>py_error\<close>, returned as \<open>Inl\<close>. Drawing and file output are left out.

  The pipeline from \<open>try_fit\<close> to \<open>plot_individual_methods\<close> computes on exact reals.
  Two places of the source are modelled a second time with the machine arithmetic written
  out: the scoring lines in double precision (\<open>score_fit_rounded\<close>, of which the exact
  \<open>score_fit\<close> is the instance without rounding) and the catalog functions on the int64
  size column (\<open>call_model_int64\<close>, which agrees with \<open>call_model\<close> on sizes below
  3037000500).
\<close>

datatype py_error = TypeError | ValueError | RuntimeError | EmptyDataError

type_synonym npfloat = "real option"

definition np_log :: "real \<Rightarrow> npfloat" where
  \<comment> \<open>\<open>np.log\<close>: \<open>-inf\<close> at 0 and \<open>nan\<close> below 0\<close>
  "np_log x = (if 0 < x then Some (ln x) else None)"

definition np_sqrt :: "npfloat \<Rightarrow> npfloat" where
  \<comment> \<open>\<open>np.sqrt\<close>: \<open>nan\<close> below 0\<close>
  "np_sqrt x = (case x of None \<Rightarrow> None | Some v \<Rightarrow> if 0 \<le> v then Some (sqrt v) else None)"

fun np_sum :: "npfloat list \<Rightarrow> npfloat" where
  \<comment> \<open>\<open>np.sum\<close>: 0.0 on the empty array; a non-finite element makes the sum non-finite\<close>
  "np_sum [] = Some 0"
| "np_sum (x # xs) =
     (case x of None \<Rightarrow> None
      | Some a \<Rightarrow> (case np_sum xs of None \<Rightarrow> None | Some s \<Rightarrow> Some (a + s)))"

definition np_mean :: "npfloat list \<Rightarrow> npfloat" where
  \<comment> \<open>\<open>np.mean\<close>: \<open>nan\<close> (with a warning) on the empty array\<close>
  "np_mean xs =
     (if xs = [] then None else map_option (\<lambda>s. s / real (length xs)) (np_sum xs))"

definition np_square :: "npfloat list \<Rightarrow> npfloat list" where
  \<comment> \<open>\<open>arr ** 2\<close>\<close>
  "np_square xs = map (map_option (\<lambda>v. v\<^sup>2)) xs"

definition np_sub :: "real list \<Rightarrow> npfloat list \<Rightarrow> py_error + npfloat list" where
  \<comment> \<open>\<open>xs - ys\<close> on one-dimensional arrays: elementwise when the lengths agree, an array
      of length 1 is broadcast, any other pair of shapes raises \<open>ValueError\<close>\<close>
  "np_sub xs ys =
     (if length xs = length ys then Inr (map2 (\<lambda>x y. map_option (\<lambda>v. x - v) y) xs ys)
      else if length ys = 1 then Inr (map (\<lambda>x. map_option (\<lambda>v. x - v) (hd ys)) xs)
      else if length xs = 1 then Inr (map (\<lambda>y. map_option (\<lambda>v. hd xs - v) y) ys)
      else Inl ValueError)"

section \<open>Complexity model functions\<close>

definition linear_model :: "real \<Rightarrow> real \<Rightarrow> real \<Rightarrow> npfloat" where
  "linear_model n a b = Some (a * n + b)"

definition quadratic :: "real \<Rightarrow> real \<Rightarrow> real \<Rightarrow> real \<Rightarrow> npfloat" where
  "quadratic n a b c = Some (a * n\<^sup>2 + b * n + c)"

definition nlogn :: "real \<Rightarrow> real \<Rightarrow> real \<Rightarrow> npfloat" where
  "nlogn n a b = map_option (\<lambda>l. a * n * l + b) (np_log (n + 1))"

definition logarithmic :: "real \<Rightarrow> real \<Rightarrow> real \<Rightarrow> npfloat" where
  "logarithmic n a b = map_option (\<lambda>l. a * l + b) (np_log (n + 1))"

definition cubic :: "real \<Rightarrow> real \<Rightarrow> real \<Rightarrow> real \<Rightarrow> real \<Rightarrow> npfloat" where
  "cubic n a b c d = Some (a * n ^ 3 + b * n\<^sup>2 + c * n + d)"

text \<open>
  The function objects stored in \<open>MODELS\<close> are tags; \<open>call_model f ns popt\<close> is the call
  \<^verbatim>\<open>model_func(n_values, *popt)\<close> on an array of sizes, which raises \<open>TypeError\<close> when
  the number of positional arguments does not fit the function.
\<close>

datatype model_func = Linear | Quadratic | NLogN | Logarithmic | Cubic

fun call_model :: "model_func \<Rightarrow> real list \<Rightarrow> real list \<Rightarrow> py_error + npfloat list" where
  "call_model Linear ns [a, b] = Inr (map (\<lambda>n. linear_model n a b) ns)"
| "call_model Quadratic ns [a, b, c] = Inr (map (\<lambda>n. quadratic n a b c) ns)"
| "call_model NLogN ns [a, b] = Inr (map (\<lambda>n. nlogn n a b) ns)"
| "call_model Logarithmic ns [a, b] = Inr (map (\<lambda>n. logarithmic n a b) ns)"
| "call_model Cubic ns [a, b, c, d] = Inr (map (\<lambda>n. cubic n a b c d) ns)"
| "call_model _ _ _ = Inl TypeError"

definition superscript_two :: string where
  \<comment> \<open>the two bytes of U+00B2 in UTF-8\<close>
  "superscript_two = [CHR 0xC2, CHR 0xB2]"

definition MODELS :: "(string \<times> model_func \<times> string list) list" where
  \<comment> \<open>the dictionary literal, in insertion order\<close>
  "MODELS =
     [(''O(n)'', Linear, [''a'', ''b'']),
      (''O(n'' @ superscript_two @ '')'', Quadratic, [''a'', ''b'', ''c'']),
      (''O(n log n)'', NLogN, [''a'', ''b'']),
      (''O(log n)'', Logarithmic, [''a'', ''b''])]"

section \<open>The catalog functions on int64 sizes\<close>

text \<open>
  \<open>fit_complexity_models\<close> computes its predictions as \<^verbatim>\<open>model_func(n_values, *popt)\<close>
  on the \<open>num_instances\<close> column, an int64 array. There \<open>n**2\<close> and \<open>n + 1\<close> are int64
  operations, which wrap around, and an int64 value becomes a float where it meets a float
  parameter. (\<open>curve_fit\<close> and the drawing call the same functions on float arrays.)
\<close>

definition float_of_int64 :: "64 word \<Rightarrow> real" where
  \<comment> \<open>the value of an int64 as a float; the rounding above \<open>2^53\<close> is not modelled\<close>
  "float_of_int64 n = real_of_int (sint n)"

definition linear_int64 :: "64 word \<Rightarrow> real \<Rightarrow> real \<Rightarrow> npfloat" where
  "linear_int64 n a b = Some (a * float_of_int64 n + b)"

definition quadratic_int64 :: "64 word \<Rightarrow> real \<Rightarrow> real \<Rightarrow> real \<Rightarrow> npfloat" where
  "quadratic_int64 n a b c = Some (a * float_of_int64 (n * n) + b * float_of_int64 n + c)"

definition nlogn_int64 :: "64 word \<Rightarrow> real \<Rightarrow> real \<Rightarrow> npfloat" where
  "nlogn_int64 n a b =
     map_option (\<lambda>l. a * float_of_int64 n * l + b) (np_log (float_of_int64 (n + 1)))"

definition logarithmic_int64 :: "64 word \<Rightarrow> real \<Rightarrow> real \<Rightarrow> npfloat" where
  "logarithmic_int64 n a b = map_option (\<lambda>l. a * l + b) (np_log (float_of_int64 (n + 1)))"

definition cubic_int64 :: "64 word \<Rightarrow> real \<Rightarrow> real \<Rightarrow> real \<Rightarrow> real \<Rightarrow> npfloat" where
  "cubic_int64 n a b c d =
     Some (a * float_of_int64 (n * n * n) + b * float_of_int64 (n * n) + c * float_of_int64 n + d)"

fun call_model_int64 :: "model_func \<Rightarrow> 64 word list \<Rightarrow> real list \<Rightarrow> py_error + npfloat list" where
  "call_model_int64 Linear ns [a, b] = Inr (map (\<lambda>n. linear_int64 n a b) ns)"
| "call_model_int64 Quadratic ns [a, b, c] = Inr (map (\<lambda>n. quadratic_int64 n a b c) ns)"
| "call_model_int64 NLogN ns [a, b] = Inr (map (\<lambda>n. nlogn_int64 n a b) ns)"
| "call_model_int64 Logarithmic ns [a, b] = Inr (map (\<lambda>n. logarithmic_int64 n a b) ns)"
| "call_model_int64 Cubic ns [a, b, c, d] = Inr (map (\<lambda>n. cubic_int64 n a b c d) ns)"
| "call_model_int64 _ _ _ = Inl TypeError"

section \<open>Fitting and scoring\<close>

text \<open>
  \<open>curve_fit\<close> of scipy is a parameter of the model: given the model function, the sizes,
  the times, the initial guess and \<open>maxfev\<close>, it returns the fitted parameters or raises.
\<close>

type_synonym curve_fit =
  "model_func \<Rightarrow> real list \<Rightarrow> real list \<Rightarrow> real list \<Rightarrow> nat \<Rightarrow> py_error + real list"

record fit_result =
  params :: "(string \<times> real) list"
  r_squared :: npfloat
  rmse :: npfloat
  predictions :: "npfloat list"
  model_func :: model_func
  popt :: "real list"

definition ss_tot_of :: "real list \<Rightarrow> real" where
  \<comment> \<open>\<open>np.sum((time_values - np.mean(time_values)) ** 2)\<close>. The times are finite, so the
      mean of a non-empty array is finite; on the empty array the mean is \<open>nan\<close>, the
      difference is the empty array and its sum is 0.0.\<close>
  "ss_tot_of time_values =
     sum_list (map (\<lambda>t. (t - sum_list time_values / real (length time_values))\<^sup>2) time_values)"

definition score_fit :: "real list \<Rightarrow> npfloat list \<Rightarrow> py_error + npfloat \<times> npfloat" where
  \<comment> \<open>the lines that compute \<open>r_squared\<close> and \<open>rmse\<close> from the times and the predictions\<close>
  "score_fit time_values preds =
     (case np_sub time_values preds of
        Inl e \<Rightarrow> Inl e
      | Inr resid \<Rightarrow>
          let ss_res = np_sum (np_square resid);
              ss_tot = ss_tot_of time_values;
              r2 = (if ss_tot > 0 then map_option (\<lambda>s. 1 - s / ss_tot) ss_res else Some 0);
              e = np_sqrt (np_mean (np_square resid))
          in Inr (r2, e))"

definition try_fit ::
  "curve_fit \<Rightarrow> model_func \<Rightarrow> string list \<Rightarrow> real list \<Rightarrow> real list \<Rightarrow> py_error + fit_result" where
  \<comment> \<open>the body of the \<open>try\<close> block for one model\<close>
  "try_fit cf f param_names n_values time_values =
     (let p0 = replicate (length param_names) 1 in
      case cf f n_values time_values p0 10000 of
        Inl e \<Rightarrow> Inl e
      | Inr po \<Rightarrow>
          (case call_model f n_values po of
             Inl e \<Rightarrow> Inl e
           | Inr preds \<Rightarrow>
               (case score_fit time_values preds of
                  Inl e \<Rightarrow> Inl e
                | Inr (r2, e) \<Rightarrow>
                    Inr \<lparr>params = zip param_names po, r_squared = r2, rmse = e,
                         predictions = preds, model_func = f, popt = po\<rparr>)))"

definition fit_complexity_models ::
  "curve_fit \<Rightarrow> real list \<Rightarrow> real list \<Rightarrow> (string \<times> fit_result option) list" where
  \<comment> \<open>the result dictionary in insertion order; \<open>except Exception\<close> stores \<open>None\<close>\<close>
  "fit_complexity_models cf n_values time_values =
     map (\<lambda>(model_name, f, param_names).
            (model_name,
             case try_fit cf f param_names n_values time_values of
               Inl e \<Rightarrow> None
             | Inr r \<Rightarrow> Some r))
         MODELS"

section \<open>Scoring in double precision\<close>




definition fl_sum :: "(real list \<Rightarrow> real) \<Rightarrow> real list \<Rightarrow> real" where
  \<comment> \<open>\<open>np.sum\<close> in floats: 0.0 on the empty array, \<open>fsum\<close> otherwise\<close>
  "fl_sum fsum xs = (if xs = [] then 0 else fsum xs)"

definition score_fit_rounded ::
  "(real \<Rightarrow> real) \<Rightarrow> (real list \<Rightarrow> real) \<Rightarrow> real list \<Rightarrow> npfloat list \<Rightarrow> py_error + npfloat \<times> npfloat" where
  \<comment> \<open>the lines of \<open>score_fit\<close> with the result of every float operation rounded by
      \<open>rnd\<close>: the differences, the squares, the mean, the quotient and the final
      subtraction. The mean of the empty array is not used.\<close>
  "score_fit_rounded rnd fsum time_values preds =
     (case np_sub time_values preds of
        Inl e \<Rightarrow> Inl e
      | Inr resid \<Rightarrow>
          let sq = map (map_option (\<lambda>d. rnd ((rnd d)\<^sup>2))) resid;
              ss_res = map_option (fl_sum fsum) (those sq);
              mean = rnd (fl_sum fsum time_values / real (length time_values));
              ss_tot = fl_sum fsum (map (\<lambda>t. rnd ((rnd (t - mean))\<^sup>2)) time_values);
              r2 = (if ss_tot > 0 then map_option (\<lambda>s. rnd (1 - rnd (s / ss_tot))) ss_res
                    else Some 0);
              e = map_option rnd
                    (np_sqrt (map_option (\<lambda>s. rnd (s / real (length sq)))
                       (if sq = [] then None else ss_res)))
          in Inr (r2, e))"

section \<open>Selection\<close>

datatype score = NegInf | Fin real

fun float_gt :: "real \<Rightarrow> score \<Rightarrow> bool" where
  \<comment> \<open>\<open>r > best_r2\<close> for a finite \<open>r\<close>; \<open>best_r2\<close> starts as \<open>-np.inf\<close>\<close>
  "float_gt r NegInf = True"
| "float_gt r (Fin b) = (r > b)"

fun best_model_loop ::
  "(string \<times> fit_result option) list \<Rightarrow> string option \<times> score \<Rightarrow> string option \<times> score" where
  \<comment> \<open>the loop over \<open>fit_results.items()\<close>. A non-finite \<open>r_squared\<close> is \<open>nan\<close> or \<open>-inf\<close>
      (it is 1 minus a quotient of sums of squares) and is never greater than \<open>best_r2\<close>.\<close>
  "best_model_loop [] acc = acc"
| "best_model_loop ((model_name, result) # rest) (best_model, best_r2) =
     (case result of
        None \<Rightarrow> best_model_loop rest (best_model, best_r2)
      | Some res \<Rightarrow>
          (case r_squared res of
             None \<Rightarrow> best_model_loop rest (best_model, best_r2)
           | Some r \<Rightarrow>
               if float_gt r best_r2
               then best_model_loop rest (Some model_name, Fin r)
               else best_model_loop rest (best_model, best_r2)))"

definition determine_best_model ::
  "(string \<times> fit_result option) list \<Rightarrow> string option \<times> score" where
  "determine_best_model fit_results = best_model_loop fit_results (None, NegInf)"

section \<open>Aggregation\<close>

text \<open>
  \<open>load_data\<close> is modelled on the rows that \<open>pd.read_csv\<close> has parsed. The columns used
  are \<open>method\<close> (the field \<open>method_name\<close>), \<open>percentage\<close>, \<open>num_instances\<close> and
  \<open>time_ms\<close>; every cell holds a finite number or a string, so no row is dropped for a
  missing key.
\<close>

record obs_key =
  method_name :: string
  percentage :: real
  num_instances :: int

record row = obs_key +
  time_ms :: real

record agg_row = obs_key +
  avg_time_ms :: real
  std_time_ms :: npfloat
  min_time_ms :: real
  max_time_ms :: real

definition group_key :: "'a obs_key_scheme \<Rightarrow> string \<times> real \<times> int" where
  "group_key r = (method_name r, percentage r, num_instances r)"

definition group_mean :: "real list \<Rightarrow> real" where
  "group_mean xs = sum_list xs / real (length xs)"

definition group_std :: "real list \<Rightarrow> npfloat" where
  \<comment> \<open>the \<open>std\<close> of pandas divides by \<open>k - 1\<close> and is \<open>nan\<close> for fewer than two values\<close>
  "group_std xs =
     (if length xs < 2 then None
      else Some (sqrt (sum_list (map (\<lambda>x. (x - group_mean xs)\<^sup>2) xs) / (real (length xs) - 1))))"

definition aggregate_group :: "string \<times> real \<times> int \<Rightarrow> real list \<Rightarrow> agg_row" where
  "aggregate_group k xs =
     (case k of (m, p, n) \<Rightarrow>
        \<lparr>method_name = m, percentage = p, num_instances = n,
         avg_time_ms = group_mean xs, std_time_ms = group_std xs,
         min_time_ms = Min (set xs), max_time_ms = Max (set xs)\<rparr>)"

definition group_times :: "row list \<Rightarrow> string \<times> real \<times> int \<Rightarrow> real list" where
  "group_times df k = map time_ms (filter (\<lambda>r. group_key r = k) df)"

definition load_data :: "row list \<Rightarrow> row list \<times> agg_row list" where
  \<comment> \<open>\<open>groupby\<close> on the three key columns, one output row per group, groups in sorted
      key order\<close>
  "load_data df =
     (df, map (\<lambda>k. aggregate_group k (group_times df k)) (sort (remdups (map group_key df))))"

text \<open>
  The source's \<open>load_data\<close> starts with \<open>pd.read_csv\<close>. A results file either has no
  columns to parse (it is empty or blank), and \<open>read_csv\<close> raises \<open>EmptyDataError\<close>, or it
  has a header line with the columns above and the parsed rows below it.
\<close>

datatype csv_file = No_columns | Header_and_rows "row list"

definition read_csv :: "csv_file \<Rightarrow> py_error + row list" where
  "read_csv csv = (case csv of No_columns \<Rightarrow> Inl EmptyDataError | Header_and_rows rows \<Rightarrow> Inr rows)"

definition load_data_csv :: "csv_file \<Rightarrow> py_error + row list \<times> agg_row list" where
  \<comment> \<open>the whole of the source's \<open>load_data\<close>: \<open>read_csv\<close>, then the aggregation\<close>
  "load_data_csv csv = (case read_csv csv of Inl e \<Rightarrow> Inl e | Inr df \<Rightarrow> Inr (load_data df))"

section \<open>Per-method analysis\<close>

definition unique :: "'a list \<Rightarrow> 'a list" where
  \<comment> \<open>\<open>Series.unique()\<close>: the distinct values in order of first appearance\<close>
  "unique xs = rev (remdups (rev xs))"

record method_analysis =
  fit_results :: "(string \<times> fit_result option) list"
  best_model :: "string option"
  best_r2 :: score

definition method_series :: "agg_row list \<Rightarrow> string \<Rightarrow> agg_row list" where
  \<comment> \<open>\<open>avg_df[avg_df['method'] == method].sort_values('num_instances')\<close>. The order that
      pandas gives to rows of equal size is not specified; the model keeps their order.\<close>
  "method_series avg_df m = sort_key num_instances (filter (\<lambda>r. method_name r = m) avg_df)"

definition analyse_method :: "curve_fit \<Rightarrow> agg_row list \<Rightarrow> string \<Rightarrow> method_analysis" where
  \<comment> \<open>one iteration of the loop over the methods, without the drawing\<close>
  "analyse_method cf avg_df m =
     (let method_data = method_series avg_df m;
          n_values = map (\<lambda>r. real_of_int (num_instances r)) method_data;
          fits = fit_complexity_models cf n_values (map avg_time_ms method_data)
      in case determine_best_model fits of
           (bm, br) \<Rightarrow> \<lparr>fit_results = fits, best_model = bm, best_r2 = br\<rparr>)"

definition plot_individual_methods ::
  "curve_fit \<Rightarrow> agg_row list \<Rightarrow> (string \<times> method_analysis) list" where
  \<comment> \<open>the returned dictionary \<open>analysis_results\<close>, in insertion order\<close>
  "plot_individual_methods cf avg_df =
     map (\<lambda>m. (m, analyse_method cf avg_df m)) (unique (map method_name avg_df))"

definition main_analysis ::
  "curve_fit \<Rightarrow> csv_file \<Rightarrow> py_error + (string \<times> method_analysis) list" where
  \<comment> \<open>the calls of \<open>main\<close> from \<open>load_data\<close> to \<open>plot_individual_methods\<close>; \<open>main\<close> has
      no handler, so an exception of \<open>load_data\<close> leaves \<open>main\<close>\<close>
  "main_analysis cf csv =
     (case load_data_csv csv of
        Inl e \<Rightarrow> Inl e
      | Inr (df, avg_df) \<Rightarrow> Inr (plot_individual_methods cf avg_df))"

section \<open>Summary report\<close>

definition newline :: string where
  "newline = [CHR 0x0A]"

definition str_of_name :: "string option \<Rightarrow> string" where
  \<comment> \<open>how an f-string prints a model name or \<open>None\<close>\<close>
  "str_of_name k = (case k of None \<Rightarrow> ''None'' | Some s \<Rightarrow> s)"

definition dict_get :: "('k \<times> 'v) list \<Rightarrow> 'k option \<Rightarrow> 'v option" where
  \<comment> \<open>\<open>d.get(key)\<close> where the key may be \<open>None\<close>, which is never a key of the dictionary\<close>
  "dict_get d k = (case k of None \<Rightarrow> None | Some k' \<Rightarrow> map_of d k')"

definition best_fit_entry ::
  "(score \<Rightarrow> string) \<Rightarrow> ((string \<times> real) list \<Rightarrow> string) \<Rightarrow> string \<times> method_analysis \<Rightarrow> string list" where
  \<comment> \<open>the strings written for one method by the loop under "BEST FIT MODELS";
      \<open>fmt\<close> formats a float with \<open>.4f\<close>, \<open>show_params\<close> prints the parameter dictionary.
      The \<open>if\<close> holds for a stored result, a non-empty dictionary, and fails for \<open>None\<close>.\<close>
  "best_fit_entry fmt show_params entry =
     (case entry of (m, results) \<Rightarrow>
        [''Method: '' @ m @ newline,
         ''  Best fit model: '' @ str_of_name (best_model results) @ newline,
         ''  R'' @ superscript_two @ '' score: '' @ fmt (best_r2 results) @ newline]
        @ (case dict_get (fit_results results) (best_model results) of
             Some (Some res) \<Rightarrow> [''  Parameters: '' @ show_params (params res) @ newline]
           | _ \<Rightarrow> [])
        @ [newline])"

definition best_fit_section ::
  "(score \<Rightarrow> string) \<Rightarrow> ((string \<times> real) list \<Rightarrow> string) \<Rightarrow> (string \<times> method_analysis) list \<Rightarrow> string list" where
  "best_fit_section fmt show_params analysis_results =
     concat (map (best_fit_entry fmt show_params) analysis_results)"

section \<open>Facts about the numpy operations\<close>

lemma np_sum_square_Some:
  "np_sum (np_square (map (\<lambda>x. Some (f x)) xs)) = Some (\<Sum>x\<leftarrow>xs. (f x)\<^sup>2)"
  by (induction xs) (auto simp: np_square_def)

lemma np_sub_same_length:
  "length ps = length os \<Longrightarrow>
   np_sub os (map Some ps) = Inr (map Some (map2 (\<lambda>x y. x - y) os ps))"
  by (simp add: np_sub_def zip_map2 split_def)

lemma ss_tot_of_nonneg: "0 \<le> ss_tot_of ts"
  unfolding ss_tot_of_def by (rule sum_list_nonneg) auto

lemma ss_tot_of_const:
  assumes h: "\<forall>t\<in>set ts. t = c"
  shows "ss_tot_of ts = 0"
proof (cases "ts = []")
  case True
  then show ?thesis by (simp add: ss_tot_of_def)
next
  case False
  from h have ts: "ts = replicate (length ts) c"
    by (simp add: replicate_length_same)
  have "sum_list ts = real (length ts) * c"
    by (subst ts) (simp add: sum_list_replicate)
  with False have m: "sum_list ts / real (length ts) = c" by simp
  have "(\<Sum>t\<leftarrow>ts. (t - c)\<^sup>2) = 0"
    using h by (induction ts) auto
  then show ?thesis unfolding ss_tot_of_def m by simp
qed

section \<open>Facts about rounding and the rounded scorer\<close>








lemma np_sum_those: "np_sum xs = map_option sum_list (those xs)"
  by (induction xs) (auto split: option.splits)

lemma score_fit_rounded_exact: "score_fit_rounded (\<lambda>x. x) sum_list ts preds = score_fit ts preds"
proof -
  have s: "fl_sum sum_list xs = sum_list xs" for xs
    by (simp add: fl_sum_def)
  have sq: "map (map_option (\<lambda>d. d\<^sup>2)) ds = np_square ds" for ds
    by (simp add: np_square_def)
  show ?thesis
    unfolding score_fit_rounded_def score_fit_def s sq
    by (auto simp: Let_def np_sum_those np_mean_def ss_tot_of_def np_square_def fun_eq_iff
        option.map_comp o_def option.map_ident split: sum.splits)
qed









section \<open>The model catalog\<close>



lemma sint_square_small:
  fixes n :: "64 word"
  assumes "0 \<le> sint n" and "sint n < 3037000500"
  shows "sint (n * n) = sint n * sint n"
proof -
  have "sint n * sint n \<le> 3037000499 * 3037000499"
    using assms by (intro mult_mono) auto
  then have "sint n * sint n < 2 ^ 63" by simp
  moreover have "- (2 ^ 63) \<le> sint n * sint n"
    using assms(1) by (smt (verit) mult_nonneg_nonneg zero_le_power)
  ultimately show ?thesis
    by (simp add: sint_word_mult signed_take_bit_int_eq_self)
qed

lemma sint_succ_small:
  fixes n :: "64 word"
  assumes "0 \<le> sint n" and "sint n < 9223372036854775807"
  shows "sint (n + 1) = sint n + 1"
  using assms by (simp add: sint_word_ariths signed_take_bit_int_eq_self)

lemma quadratic_int64_small:
  "0 \<le> sint n \<Longrightarrow> sint n < 3037000500 \<Longrightarrow>
   quadratic_int64 n a b c = quadratic (float_of_int64 n) a b c"
  by (simp add: quadratic_int64_def quadratic_def float_of_int64_def sint_square_small
      power2_eq_square)

lemma call_model_int64_small:
  assumes "\<forall>n\<in>set ns. 0 \<le> sint n \<and> sint n < 3037000500" and "f \<noteq> Cubic"
  shows "call_model_int64 f ns po = call_model f (map float_of_int64 ns) po"
proof -
  have q: "quadratic_int64 n a b c = quadratic (float_of_int64 n) a b c"
    if "n \<in> set ns" for n a b c
    using that assms(1) by (simp add: quadratic_int64_small)
  have s: "float_of_int64 (n + 1) = float_of_int64 n + 1" if "n \<in> set ns" for n
  proof -
    from that assms(1) have "sint (n + 1) = sint n + 1"
      by (intro sint_succ_small) auto
    then show ?thesis
      unfolding float_of_int64_def by (simp only: of_int_add of_int_1)
  qed
  have l: "nlogn_int64 n a b = nlogn (float_of_int64 n) a b"
    and g: "logarithmic_int64 n a b = logarithmic (float_of_int64 n) a b"
    if "n \<in> set ns" for n a b
    using s [OF that] by (simp_all add: nlogn_int64_def nlogn_def logarithmic_int64_def
        logarithmic_def)
  have i: "linear_int64 n a b = linear_model (float_of_int64 n) a b" for n a b
    by (simp add: linear_int64_def linear_model_def)
  show ?thesis
  proof (cases f)
    case Linear
    then show ?thesis
      by (cases "(f, ns, po)" rule: call_model_int64.cases) (auto simp: i o_def)
  next
    case Quadratic
    then show ?thesis
      by (cases "(f, ns, po)" rule: call_model_int64.cases) (auto simp: q o_def)
  next
    case NLogN
    then show ?thesis
      by (cases "(f, ns, po)" rule: call_model_int64.cases) (auto simp: l o_def)
  next
    case Logarithmic
    then show ?thesis
      by (cases "(f, ns, po)" rule: call_model_int64.cases) (auto simp: g o_def)
  next
    case Cubic
    with assms(2) show ?thesis by simp
  qed
qed





section \<open>The scorer\<close>

text \<open>
  In exact arithmetic the scoring lines give \<open>1 - SS_res / SS_tot\<close>, and 0 for a constant
  series.
\<close>

lemma score_fit_exact_r_squared:
  assumes "length predicted = length observed"
  shows "(\<exists>e. score_fit observed (map Some predicted) =
            Inr (Some (let mean = sum_list observed / real (length observed);
                           SS_res = (\<Sum>(ob, p)\<leftarrow>zip observed predicted. (ob - p)\<^sup>2);
                           SS_tot = (\<Sum>ob\<leftarrow>observed. (ob - mean)\<^sup>2)
                       in if SS_tot = 0 then 0 else 1 - SS_res / SS_tot), e))
         \<and> ((\<forall>ob\<in>set observed. ob = c) \<longrightarrow>
              (\<exists>e. score_fit observed (map Some predicted) = Inr (Some 0, e)))"
proof -
  have sub: "np_sub observed (map Some predicted) =
      Inr (map Some (map2 (\<lambda>x y. x - y) observed predicted))"
    using assms by (rule np_sub_same_length)
  have res: "np_sum (np_square (map Some (map2 (\<lambda>x y. x - y) observed predicted)))
      = Some (\<Sum>(ob, p)\<leftarrow>zip observed predicted. (ob - p)\<^sup>2)"
    by (simp add: np_sum_square_Some split_def o_def)
  have nn: "0 \<le> ss_tot_of observed" by (rule ss_tot_of_nonneg)
  have first: "\<exists>e. score_fit observed (map Some predicted) =
      Inr (Some (let mean = sum_list observed / real (length observed);
                     SS_res = (\<Sum>(ob, p)\<leftarrow>zip observed predicted. (ob - p)\<^sup>2);
                     SS_tot = (\<Sum>ob\<leftarrow>observed. (ob - mean)\<^sup>2)
                 in if SS_tot = 0 then 0 else 1 - SS_res / SS_tot), e)"
    using nn unfolding score_fit_def sub sum.case Let_def res
    by (auto simp: ss_tot_of_def)
  have second: "(\<forall>ob\<in>set observed. ob = c) \<longrightarrow>
      (\<exists>e. score_fit observed (map Some predicted) = Inr (Some 0, e))"
    unfolding score_fit_def sub sum.case Let_def res
    by (auto simp: ss_tot_of_const)
  from first second show ?thesis by blast
qed





section \<open>Facts about the selection loop\<close>

lemma float_gt_between: "float_gt r br \<Longrightarrow> \<not> float_gt r' br \<Longrightarrow> r' < r"
  by (cases br) auto

lemma float_gt_trans: "float_gt r' (Fin r) \<Longrightarrow> float_gt r br \<Longrightarrow> float_gt r' br"
  by (cases br) auto

lemma best_model_loop_cases:
  "(best_model_loop rs (bm, br) = (bm, br)
      \<and> (\<forall>k res r. (k, Some res) \<in> set rs \<longrightarrow> r_squared res = Some r \<longrightarrow> \<not> float_gt r br))
   \<or> (\<exists>pre m res r post. rs = pre @ (m, Some res) # post \<and> r_squared res = Some r
         \<and> best_model_loop rs (bm, br) = (Some m, Fin r) \<and> float_gt r br
         \<and> (\<forall>k res' r'. (k, Some res') \<in> set pre \<longrightarrow> r_squared res' = Some r' \<longrightarrow> r' < r)
         \<and> (\<forall>k res' r'. (k, Some res') \<in> set post \<longrightarrow> r_squared res' = Some r' \<longrightarrow> r' \<le> r))"
  (is "?keep rs bm br \<or> ?take rs bm br")
proof (induction rs arbitrary: bm br)
  case Nil
  then show ?case by simp
next
  case (Cons x rs)
  obtain name result where x: "x = (name, result)" by (cases x)
  show ?case
  proof (cases "\<exists>res r. result = Some res \<and> r_squared res = Some r \<and> float_gt r br")
    case True
    then obtain res r where res: "result = Some res" "r_squared res = Some r" "float_gt r br"
      by blast
    then have step: "best_model_loop (x # rs) (bm, br) = best_model_loop rs (Some name, Fin r)"
      by (simp add: x)
    from Cons.IH [of "Some name" "Fin r"] show ?thesis
    proof
      assume k: "?keep rs (Some name) (Fin r)"
      then have "\<forall>k res' r'. (k, Some res') \<in> set rs \<longrightarrow> r_squared res' = Some r' \<longrightarrow> r' \<le> r"
        by (auto simp: not_less)
      with k res step have "?take (x # rs) bm br"
        by (intro exI [of _ "[]"] exI [of _ name] exI [of _ res] exI [of _ r] exI [of _ rs])
          (simp add: x)
      then show ?thesis ..
    next
      assume "?take rs (Some name) (Fin r)"
      then obtain pre m res2 r2 post where t: "rs = pre @ (m, Some res2) # post"
        "r_squared res2 = Some r2" "best_model_loop rs (Some name, Fin r) = (Some m, Fin r2)"
        "float_gt r2 (Fin r)"
        "\<forall>k res' r'. (k, Some res') \<in> set pre \<longrightarrow> r_squared res' = Some r' \<longrightarrow> r' < r2"
        "\<forall>k res' r'. (k, Some res') \<in> set post \<longrightarrow> r_squared res' = Some r' \<longrightarrow> r' \<le> r2"
        by blast
      from t(4) res(3) have gt: "float_gt r2 br" by (rule float_gt_trans)
      from t(4) have "r < r2" by simp
      with t(5) res have pre: "\<forall>k res' r'. (k, Some res') \<in> set (x # pre) \<longrightarrow>
          r_squared res' = Some r' \<longrightarrow> r' < r2"
        by (auto simp: x)
      have "x # rs = (x # pre) @ (m, Some res2) # post" using t(1) by simp
      with t(2,3,6) step gt pre have "?take (x # rs) bm br"
        by (intro exI [of _ "x # pre"] exI [of _ m] exI [of _ res2] exI [of _ r2]
            exI [of _ post]) simp
      then show ?thesis ..
    qed
  next
    case False
    then have step: "best_model_loop (x # rs) (bm, br) = best_model_loop rs (bm, br)"
      by (auto simp: x split: option.splits)
    from False have head: "\<forall>k res' r'. (k, Some res') \<in> set [x] \<longrightarrow> r_squared res' = Some r' \<longrightarrow>
        \<not> float_gt r' br"
      by (auto simp: x)
    from Cons.IH [of bm br] show ?thesis
    proof
      assume "?keep rs bm br"
      with head step have "?keep (x # rs) bm br" by auto
      then show ?thesis ..
    next
      assume "?take rs bm br"
      then obtain pre m res2 r2 post where t: "rs = pre @ (m, Some res2) # post"
        "r_squared res2 = Some r2" "best_model_loop rs (bm, br) = (Some m, Fin r2)"
        "float_gt r2 br"
        "\<forall>k res' r'. (k, Some res') \<in> set pre \<longrightarrow> r_squared res' = Some r' \<longrightarrow> r' < r2"
        "\<forall>k res' r'. (k, Some res') \<in> set post \<longrightarrow> r_squared res' = Some r' \<longrightarrow> r' \<le> r2"
        by blast
      from head t(4) have "\<forall>k res' r'. (k, Some res') \<in> set [x] \<longrightarrow> r_squared res' = Some r' \<longrightarrow>
          r' < r2"
        by (blast intro: float_gt_between)
      with t(5) have pre: "\<forall>k res' r'. (k, Some res') \<in> set (x # pre) \<longrightarrow>
          r_squared res' = Some r' \<longrightarrow> r' < r2"
        by auto
      have "x # rs = (x # pre) @ (m, Some res2) # post" using t(1) by simp
      with t(2,3,4,6) step pre have "?take (x # rs) bm br"
        by (intro exI [of _ "x # pre"] exI [of _ m] exI [of _ res2] exI [of _ r2]
            exI [of _ post]) simp
      then show ?thesis ..
    qed
  qed
qed

lemma determine_best_model_cases:
  "(\<exists>pre m res r post. results = pre @ (m, Some res) # post \<and> r_squared res = Some r
       \<and> determine_best_model results = (Some m, Fin r)
       \<and> (\<forall>k res' r'. (k, Some res') \<in> set pre \<longrightarrow> r_squared res' = Some r' \<longrightarrow> r' < r)
       \<and> (\<forall>k res' r'. (k, Some res') \<in> set post \<longrightarrow> r_squared res' = Some r' \<longrightarrow> r' \<le> r))
   \<or> (determine_best_model results = (None, NegInf)
       \<and> (\<forall>k res. (k, Some res) \<in> set results \<longrightarrow> r_squared res = None))"
proof -
  from best_model_loop_cases [of results None NegInf] show ?thesis
  proof
    assume k: "best_model_loop results (None, NegInf) = (None, NegInf)
      \<and> (\<forall>k res r. (k, Some res) \<in> set results \<longrightarrow> r_squared res = Some r \<longrightarrow>
            \<not> float_gt r NegInf)"
    have "\<forall>k res. (k, Some res) \<in> set results \<longrightarrow> r_squared res = None"
    proof (intro allI impI)
      fix k res
      assume "(k, Some res) \<in> set results"
      with k show "r_squared res = None" by (cases "r_squared res") auto
    qed
    with k show ?thesis by (simp add: determine_best_model_def)
  next
    assume "\<exists>pre m res r post. results = pre @ (m, Some res) # post \<and> r_squared res = Some r
         \<and> best_model_loop results (None, NegInf) = (Some m, Fin r) \<and> float_gt r NegInf
         \<and> (\<forall>k res' r'. (k, Some res') \<in> set pre \<longrightarrow> r_squared res' = Some r' \<longrightarrow> r' < r)
         \<and> (\<forall>k res' r'. (k, Some res') \<in> set post \<longrightarrow> r_squared res' = Some r' \<longrightarrow> r' \<le> r)"
    then show ?thesis unfolding determine_best_model_def by blast
  qed
qed

lemma determine_best_model_finite_entry:
  assumes "(k, Some res) \<in> set rs" and "r_squared res = Some r"
  shows "\<exists>m r'. determine_best_model rs = (Some m, Fin r') \<and> r \<le> r'"
  using determine_best_model_cases [of rs]
proof
  assume "\<exists>pre m res r post. rs = pre @ (m, Some res) # post \<and> r_squared res = Some r
       \<and> determine_best_model rs = (Some m, Fin r)
       \<and> (\<forall>k res' r'. (k, Some res') \<in> set pre \<longrightarrow> r_squared res' = Some r' \<longrightarrow> r' < r)
       \<and> (\<forall>k res' r'. (k, Some res') \<in> set post \<longrightarrow> r_squared res' = Some r' \<longrightarrow> r' \<le> r)"
  then obtain pre m res2 r2 post where t: "rs = pre @ (m, Some res2) # post"
    "r_squared res2 = Some r2" "determine_best_model rs = (Some m, Fin r2)"
    "\<forall>k res' r'. (k, Some res') \<in> set pre \<longrightarrow> r_squared res' = Some r' \<longrightarrow> r' < r2"
    "\<forall>k res' r'. (k, Some res') \<in> set post \<longrightarrow> r_squared res' = Some r' \<longrightarrow> r' \<le> r2"
    by blast
  from assms(1) t(1) have "(k, Some res) \<in> set pre \<or> (k, Some res) = (m, Some res2)
      \<or> (k, Some res) \<in> set post"
    by auto
  with t(2,4,5) assms(2) have "r \<le> r2" by (auto dest: less_imp_le)
  with t(3) show ?thesis by blast
next
  assume "determine_best_model rs = (None, NegInf)
       \<and> (\<forall>k res. (k, Some res) \<in> set rs \<longrightarrow> r_squared res = None)"
  with assms show ?thesis by auto
qed

lemma best_model_loop_depends_on_r_squared:
  "map (\<lambda>(k, e). (k, map_option r_squared e)) rs
     = map (\<lambda>(k, e). (k, map_option r_squared e)) rs' \<Longrightarrow>
   best_model_loop rs acc = best_model_loop rs' acc"
proof (induction rs arbitrary: rs' acc)
  case Nil
  then show ?case by simp
next
  case (Cons x rs)
  then obtain y ys where rs': "rs' = y # ys" by (cases rs') auto
  obtain k e where x: "x = (k, e)" by (cases x)
  obtain k' e' where y: "y = (k', e')" by (cases y)
  obtain bm br where acc: "acc = (bm, br)" by (cases acc)
  from Cons.prems have hd: "k = k'" "map_option r_squared e = map_option r_squared e'"
    and tl: "map (\<lambda>(k, e). (k, map_option r_squared e)) rs
      = map (\<lambda>(k, e). (k, map_option r_squared e)) ys"
    by (simp_all add: rs' x y)
  from hd(2) have "(e = None \<and> e' = None)
      \<or> (\<exists>res res'. e = Some res \<and> e' = Some res' \<and> r_squared res = r_squared res')"
    by (cases e; cases e') auto
  then show ?case
    using Cons.IH [OF tl] by (auto simp: rs' x y acc hd(1) split: option.splits)
qed

lemma best_model_loop_all_None:
  "\<forall>(k, e)\<in>set rs. e = None \<Longrightarrow> best_model_loop rs acc = acc"
  by (induction rs arbitrary: acc) (auto split: prod.splits)


section \<open>Facts about fitting and the per-method analysis\<close>

lemma fit_complexity_models_keys:
  "map fst (fit_complexity_models cf ns ts) = map fst MODELS"
  by (simp add: fit_complexity_models_def split_def o_def)

lemma fit_complexity_models_lookup:
  "(name, f, ps) \<in> set MODELS \<Longrightarrow>
   map_of (fit_complexity_models cf ns ts) name =
     Some (case try_fit cf f ps ns ts of Inl e \<Rightarrow> None | Inr r \<Rightarrow> Some r)"
  unfolding fit_complexity_models_def MODELS_def
  by (auto simp: superscript_two_def)

lemma fit_complexity_models_mem:
  "(name, e) \<in> set (fit_complexity_models cf ns ts) \<Longrightarrow>
   \<exists>f ps. (name, f, ps) \<in> set MODELS
     \<and> e = (case try_fit cf f ps ns ts of Inl e \<Rightarrow> None | Inr r \<Rightarrow> Some r)"
  unfolding fit_complexity_models_def by auto

lemma try_fit_curve_fit_raises:
  "cf f ns ts (replicate (length ps) 1) 10000 = Inl e \<Longrightarrow> try_fit cf f ps ns ts = Inl e"
  by (simp add: try_fit_def)

lemma try_fit_cong: "cf' f = cf f \<Longrightarrow> try_fit cf' f ps ns ts = try_fit cf f ps ns ts"
  by (simp add: try_fit_def)

lemma plot_individual_methods_keys:
  "map fst (plot_individual_methods cf avg_df) = unique (map method_name avg_df)"
  by (simp add: plot_individual_methods_def o_def)

lemma call_model_length: "call_model f ns po = Inr preds \<Longrightarrow> length preds = length ns"
  by (erule call_model.elims) auto

lemma call_model_finite:
  assumes "call_model f ns po = Inr preds" and "\<forall>n\<in>set ns. 0 \<le> n"
  shows "\<exists>ps. preds = map Some ps"
  using assms
  by (elim call_model.elims)
     (auto simp: linear_model_def quadratic_def cubic_def nlogn_def logarithmic_def np_log_def
        map_eq_conv intro!: exI [of _ "map the preds"], (force intro: add_nonneg_pos)+)

lemma np_sub_mismatch:
  "length xs \<noteq> length ys \<Longrightarrow> length xs \<noteq> 1 \<Longrightarrow> length ys \<noteq> 1 \<Longrightarrow> np_sub xs ys = Inl ValueError"
  by (simp add: np_sub_def)

lemma score_fit_mismatch:
  "length xs \<noteq> length ys \<Longrightarrow> length xs \<noteq> 1 \<Longrightarrow> length ys \<noteq> 1 \<Longrightarrow> score_fit xs ys = Inl ValueError"
  by (simp add: score_fit_def np_sub_mismatch)

lemma score_fit_broadcast: "\<exists>e. score_fit [t] (map Some ps) = Inr (Some 0, e)"
proof -
  have "\<exists>resid. np_sub [t] (map Some ps) = Inr resid"
    by (simp add: np_sub_def)
  then show ?thesis
    by (auto simp: score_fit_def ss_tot_of_def Let_def)
qed

lemma try_fit_mismatch:
  assumes "length ns \<noteq> length ts" "length ns \<noteq> 1" "length ts \<noteq> 1"
  shows "\<exists>e. try_fit cf f ps ns ts = Inl e"
proof (cases "cf f ns ts (replicate (length ps) 1) 10000")
  case (Inl e)
  then show ?thesis by (simp add: try_fit_def)
next
  case (Inr po)
  show ?thesis
  proof (cases "call_model f ns po")
    case (Inl e)
    with Inr show ?thesis by (simp add: try_fit_def)
  next
    case r: (Inr preds)
    then have "length preds = length ns" by (rule call_model_length)
    with assms have "score_fit ts preds = Inl ValueError"
      by (intro score_fit_mismatch) auto
    with Inr r show ?thesis by (simp add: try_fit_def)
  qed
qed

lemma np_sub_finite:
  assumes "np_sub ts (map Some ps) = Inr resid"
  shows "\<exists>ds. resid = map Some ds"
proof -
  have hd1: "hd (map Some ps) = Some (hd ps)" if "length ps = 1"
    using that by (cases ps) auto
  show ?thesis
    using assms
    by (auto simp: np_sub_def zip_map2 split_def o_def hd1 split: if_splits
        intro: exI [of _ "map the resid"])
qed

lemma np_sum_square_finite: "\<exists>s. np_sum (np_square (map Some ds)) = Some s"
  by (simp add: np_sum_square_Some [of "\<lambda>x. x"])

lemma score_fit_finite:
  assumes "score_fit ts (map Some ps) = Inr (r2, e)"
  shows "\<exists>r. r2 = Some r"
proof -
  from assms obtain resid where sub: "np_sub ts (map Some ps) = Inr resid"
    by (auto simp: score_fit_def split: sum.splits)
  then obtain ds where ds: "resid = map Some ds" using np_sub_finite by blast
  obtain s where s: "np_sum (np_square (map Some ds)) = Some s"
    using np_sum_square_finite by blast
  from assms show ?thesis
    by (auto simp: score_fit_def sub ds s Let_def split: if_splits)
qed

lemma try_fit_finite:
  assumes "try_fit cf f pnames ns ts = Inr res" and "\<forall>n\<in>set ns. 0 \<le> n"
  shows "\<exists>r. r_squared res = Some r"
proof -
  from assms(1) obtain po preds r2 e where
    c: "call_model f ns po = Inr preds" and s: "score_fit ts preds = Inr (r2, e)"
    and r: "r_squared res = r2"
    by (auto simp: try_fit_def Let_def split: sum.splits)
  from c assms(2) obtain ps where "preds = map Some ps" using call_model_finite by blast
  with s r show ?thesis using score_fit_finite by blast
qed

lemma fit_complexity_models_finite:
  assumes "(name, Some res) \<in> set (fit_complexity_models cf ns ts)" and "\<forall>n\<in>set ns. 0 \<le> n"
  shows "\<exists>r. r_squared res = Some r"
proof -
  from assms(1) obtain f ps where
    "Some res = (case try_fit cf f ps ns ts of Inl e \<Rightarrow> None | Inr r \<Rightarrow> Some r)"
    using fit_complexity_models_mem by blast
  then have "try_fit cf f ps ns ts = Inr res" by (auto split: sum.splits)
  then show ?thesis using assms(2) by (rule try_fit_finite)
qed

lemma analyse_method_fields:
  "fit_results (analyse_method cf avg_df m) =
     fit_complexity_models cf (map (\<lambda>r. real_of_int (num_instances r)) (method_series avg_df m))
       (map avg_time_ms (method_series avg_df m))"
  "best_model (analyse_method cf avg_df m) =
     fst (determine_best_model (fit_results (analyse_method cf avg_df m)))"
  "best_r2 (analyse_method cf avg_df m) =
     snd (determine_best_model (fit_results (analyse_method cf avg_df m)))"
  by (simp_all add: analyse_method_def Let_def split: prod.splits)

lemma plot_individual_methods_mem:
  "(m, a) \<in> set (plot_individual_methods cf avg_df) \<Longrightarrow> a = analyse_method cf avg_df m"
  by (auto simp: plot_individual_methods_def)

section \<open>The selector\<close>

text \<open>
  Claim C1, as the code has it. Among the fits that did not fail and have a finite \<open>R\<^sup>2\<close>,
  the selector picks one with maximal \<open>R\<^sup>2\<close>; among several with exactly that \<open>R\<^sup>2\<close> it picks
  the one that comes first in the iteration order of the mapping, which is the declared
  order of the catalog. Every entry before the selected one has a strictly smaller \<open>R\<^sup>2\<close>,
  every entry after it a smaller or equal one. When no entry has a finite \<open>R\<^sup>2\<close> nothing is
  selected. The number of parameters takes no part: two mappings with the same names and the
  same \<open>R\<^sup>2\<close> values, in the same order, give the same selection.
\<close>

theorem determine_best_model_first_maximal:
  "((\<exists>pre m res r post. results = pre @ (m, Some res) # post \<and> r_squared res = Some r
        \<and> determine_best_model results = (Some m, Fin r)
        \<and> (\<forall>k res' r'. (k, Some res') \<in> set pre \<longrightarrow> r_squared res' = Some r' \<longrightarrow> r' < r)
        \<and> (\<forall>k res' r'. (k, Some res') \<in> set post \<longrightarrow> r_squared res' = Some r' \<longrightarrow> r' \<le> r))
    \<or> (determine_best_model results = (None, NegInf)
        \<and> (\<forall>k res. (k, Some res) \<in> set results \<longrightarrow> r_squared res = None)))
   \<and> (map (\<lambda>(k, e). (k, map_option r_squared e)) results
        = map (\<lambda>(k, e). (k, map_option r_squared e)) results' \<longrightarrow>
      determine_best_model results = determine_best_model results')
   \<and> map fst (fit_complexity_models cf n_values time_values) = map fst MODELS"
proof (intro conjI impI)
  show "(\<exists>pre m res r post. results = pre @ (m, Some res) # post \<and> r_squared res = Some r
        \<and> determine_best_model results = (Some m, Fin r)
        \<and> (\<forall>k res' r'. (k, Some res') \<in> set pre \<longrightarrow> r_squared res' = Some r' \<longrightarrow> r' < r)
        \<and> (\<forall>k res' r'. (k, Some res') \<in> set post \<longrightarrow> r_squared res' = Some r' \<longrightarrow> r' \<le> r))
    \<or> (determine_best_model results = (None, NegInf)
        \<and> (\<forall>k res. (k, Some res) \<in> set results \<longrightarrow> r_squared res = None))"
    by (rule determine_best_model_cases)
next
  assume "map (\<lambda>(k, e). (k, map_option r_squared e)) results
        = map (\<lambda>(k, e). (k, map_option r_squared e)) results'"
  then show "determine_best_model results = determine_best_model results'"
    unfolding determine_best_model_def by (rule best_model_loop_depends_on_r_squared)
next
  show "map fst (fit_complexity_models cf n_values time_values) = map fst MODELS"
    by (rule fit_complexity_models_keys)
qed

theorem determine_best_model_first_maximal_witness:
  "determine_best_model
     [(''O(n)'',
       Some \<lparr>params = [(''a'', 1), (''b'', 1)], r_squared = Some (1 / 2), rmse = Some 1,
             predictions = [Some 2, Some 3], model_func = Linear, popt = [1, 1]\<rparr>),
      (''O(n'' @ superscript_two @ '')'', None),
      (''O(n log n)'',
       Some \<lparr>params = [(''a'', 1), (''b'', 2)], r_squared = Some (3 / 4), rmse = Some 1,
             predictions = [Some 2, Some 3], model_func = NLogN, popt = [1, 2]\<rparr>),
      (''O(log n)'',
       Some \<lparr>params = [(''a'', 2), (''b'', 1)], r_squared = Some (3 / 4), rmse = Some 1,
             predictions = [Some 2, Some 3], model_func = Logarithmic, popt = [2, 1]\<rparr>)]
   = (Some ''O(n log n)'', Fin (3 / 4))"
  using determine_best_model_first_maximal [where results =
     "[(''O(n)'',
       Some \<lparr>params = [(''a'', 1), (''b'', 1)], r_squared = Some (1 / 2), rmse = Some 1,
             predictions = [Some 2, Some 3], model_func = Linear, popt = [1, 1]\<rparr>),
      (''O(n'' @ superscript_two @ '')'', None),
      (''O(n log n)'',
       Some \<lparr>params = [(''a'', 1), (''b'', 2)], r_squared = Some (3 / 4), rmse = Some 1,
             predictions = [Some 2, Some 3], model_func = NLogN, popt = [1, 2]\<rparr>),
      (''O(log n)'',
       Some \<lparr>params = [(''a'', 2), (''b'', 1)], r_squared = Some (3 / 4), rmse = Some 1,
             predictions = [Some 2, Some 3], model_func = Logarithmic, popt = [2, 1]\<rparr>)]"
     and results' = "[]" and cf = "\<lambda>f ns ts p0 maxfev. Inr p0" and n_values = "[]"
     and time_values = "[]"]
  by (simp add: determine_best_model_def)

text \<open>
  The claim C1 as the specification states it fails: a quadratic fit (three parameters) and
  a linearithmic fit (two parameters) with the same \<open>R\<^sup>2\<close>, the quadratic one first in the
  catalog. The selector returns the quadratic model.
\<close>

theorem selector_tie_prefers_first_not_fewest_parameters:
  "determine_best_model
     [(''O(n)'', None),
      (''O(n'' @ superscript_two @ '')'',
       Some \<lparr>params = [(''a'', 0), (''b'', 0), (''c'', 5)], r_squared = Some 0, rmse = Some 0,
             predictions = [Some 5, Some 5, Some 5], model_func = Quadratic,
             popt = [0, 0, 5]\<rparr>),
      (''O(n log n)'',
       Some \<lparr>params = [(''a'', 0), (''b'', 5)], r_squared = Some 0, rmse = Some 0,
             predictions = [Some 5, Some 5, Some 5], model_func = NLogN, popt = [0, 5]\<rparr>),
      (''O(log n)'', None)]
   = (Some (''O(n'' @ superscript_two @ '')''), Fin 0)
   \<and> ''O(n'' @ superscript_two @ '')'' \<noteq> ''O(n log n)''"
  by (simp add: determine_best_model_def superscript_two_def)

text \<open>
  Claim C10. For a series of non-negative sizes for which at least one catalog model fits,
  the selector returns a model. It applies no threshold: whenever some fit has a finite
  \<open>R\<^sup>2\<close>, a model with at least that \<open>R\<^sup>2\<close> is selected, and a single successful fit is selected
  whatever its \<open>R\<^sup>2\<close>, negative values included, because every finite value is greater than
  the initial \<open>-inf\<close>.
\<close>

theorem selector_has_no_threshold:
  "((\<forall>n\<in>set n_values. 0 \<le> n) \<longrightarrow>
      (name, Some res) \<in> set (fit_complexity_models cf n_values time_values) \<longrightarrow>
      (\<exists>m r. determine_best_model (fit_complexity_models cf n_values time_values) = (Some m, Fin r)))
   \<and> ((k, Some res') \<in> set results \<longrightarrow> r_squared res' = Some r' \<longrightarrow>
      (\<exists>m r. determine_best_model results = (Some m, Fin r) \<and> r' \<le> r))
   \<and> (r_squared res' = Some r' \<longrightarrow>
      determine_best_model [(k, Some res')] = (Some k, Fin r'))"
proof (intro conjI impI)
  assume "\<forall>n\<in>set n_values. 0 \<le> n"
    and m: "(name, Some res) \<in> set (fit_complexity_models cf n_values time_values)"
  then obtain r where "r_squared res = Some r"
    using fit_complexity_models_finite by blast
  with m show "\<exists>m r. determine_best_model (fit_complexity_models cf n_values time_values)
      = (Some m, Fin r)"
    using determine_best_model_finite_entry by blast
next
  assume "(k, Some res') \<in> set results" "r_squared res' = Some r'"
  then show "\<exists>m r. determine_best_model results = (Some m, Fin r) \<and> r' \<le> r"
    by (rule determine_best_model_finite_entry)
next
  assume "r_squared res' = Some r'"
  then show "determine_best_model [(k, Some res')] = (Some k, Fin r')"
    by (simp add: determine_best_model_def)
qed

theorem selector_has_no_threshold_witness:
  "fit_complexity_models
     (\<lambda>f ns ts p0 maxfev. if f = Linear then Inr p0 else Inl RuntimeError) [1, 2] [1, 2]
   = [(''O(n)'',
       Some \<lparr>params = [(''a'', 1), (''b'', 1)], r_squared = Some (- 3), rmse = Some 1,
             predictions = [Some 2, Some 3], model_func = Linear, popt = [1, 1]\<rparr>),
      (''O(n'' @ superscript_two @ '')'', None), (''O(n log n)'', None), (''O(log n)'', None)]
   \<and> determine_best_model
       (fit_complexity_models
         (\<lambda>f ns ts p0 maxfev. if f = Linear then Inr p0 else Inl RuntimeError) [1, 2] [1, 2])
     = (Some ''O(n)'', Fin (- 3))"
  using selector_has_no_threshold [of "[1, 2]" "''O(n)''"
      "\<lparr>params = [(''a'', 1), (''b'', 1)], r_squared = Some (- 3), rmse = Some 1,
             predictions = [Some 2, Some 3], model_func = Linear, popt = [1, 1]\<rparr>"
      "\<lambda>f ns ts p0 maxfev. if f = Linear then Inr p0 else Inl RuntimeError" "[1, 2]"]
  by (simp add: fit_complexity_models_def MODELS_def try_fit_def score_fit_def np_sub_def
      np_square_def np_mean_def np_sqrt_def ss_tot_of_def linear_model_def
      determine_best_model_def Let_def power2_eq_square)

section \<open>Failures of single fits\<close>

text \<open>
  Claim C6. The result of \<open>fit_complexity_models\<close> has one entry for every catalog model,
  in catalog order, whatever fails. When \<open>curve_fit\<close> raises for one model, the entry of that
  model is the marker \<open>None\<close>. The entry of a model depends on the behaviour of \<open>curve_fit\<close>
  for that model only, so a failure for another model cannot change it. The per-method
  analysis has one entry for every method of the table.
\<close>

theorem fit_failures_are_isolated:
  "map fst (fit_complexity_models cf n_values time_values) = map fst MODELS
   \<and> ((name, f, ps) \<in> set MODELS \<longrightarrow>
        cf f n_values time_values (replicate (length ps) 1) 10000 = Inl e \<longrightarrow>
        map_of (fit_complexity_models cf n_values time_values) name = Some None)
   \<and> ((name, f, ps) \<in> set MODELS \<longrightarrow> cf' f = cf f \<longrightarrow>
        map_of (fit_complexity_models cf' n_values time_values) name =
        map_of (fit_complexity_models cf n_values time_values) name)
   \<and> map fst (plot_individual_methods cf avg_df) = unique (map method_name avg_df)"
proof (intro conjI impI)
  show "map fst (fit_complexity_models cf n_values time_values) = map fst MODELS"
    by (rule fit_complexity_models_keys)
next
  assume "(name, f, ps) \<in> set MODELS"
    and "cf f n_values time_values (replicate (length ps) 1) 10000 = Inl e"
  then show "map_of (fit_complexity_models cf n_values time_values) name = Some None"
    by (simp add: fit_complexity_models_lookup try_fit_curve_fit_raises)
next
  assume m: "(name, f, ps) \<in> set MODELS" and "cf' f = cf f"
  then have "try_fit cf' f ps n_values time_values = try_fit cf f ps n_values time_values"
    by (intro try_fit_cong)
  with m show "map_of (fit_complexity_models cf' n_values time_values) name =
      map_of (fit_complexity_models cf n_values time_values) name"
    by (simp add: fit_complexity_models_lookup)
next
  show "map fst (plot_individual_methods cf avg_df) = unique (map method_name avg_df)"
    by (rule plot_individual_methods_keys)
qed

theorem fit_failures_are_isolated_witness:
  "map (\<lambda>(k, e). (k, e = None))
     (fit_complexity_models
        (\<lambda>f ns ts p0 maxfev. if length ns < length p0 then Inl TypeError else Inr p0)
        [1, 2] [3, 5])
   = [(''O(n)'', False), (''O(n'' @ superscript_two @ '')'', True), (''O(n log n)'', False),
      (''O(log n)'', False)]"
  using fit_failures_are_isolated [of
      "\<lambda>f ns ts p0 maxfev. if length ns < length p0 then Inl TypeError else Inr p0"
      "[1, 2]" "[3, 5]" "''O(n'' @ superscript_two @ '')''" Quadratic "[''a'', ''b'', ''c'']"
      TypeError
      "\<lambda>f ns ts p0 maxfev. if length ns < length p0 then Inl TypeError else Inr p0" "[]"]
  by (simp add: fit_complexity_models_def MODELS_def try_fit_def score_fit_def np_sub_def
      Let_def)

text \<open>
  Claim C9, as the code has it. When the sizes and the times differ in length and neither
  has length 1, every attempt of the \<open>try\<close> block ends in an exception, which the handler
  turns into the marker \<open>None\<close>: the result holds \<open>None\<close> for every catalog model and no
  exception reaches the caller. A single observed value is broadcast against predictions of
  any length: the scoring lines raise nothing there and return the score 0.
\<close>

theorem length_mismatch_is_swallowed:
  "(length n_values \<noteq> length time_values \<longrightarrow> length n_values \<noteq> 1 \<longrightarrow>
      length time_values \<noteq> 1 \<longrightarrow>
      (\<forall>f ps. \<exists>e. try_fit cf f ps n_values time_values = Inl e)
      \<and> fit_complexity_models cf n_values time_values
          = map (\<lambda>(name, f, ps). (name, None)) MODELS)
   \<and> (\<exists>e. score_fit [t] (map Some predicted) = Inr (Some 0, e))"
proof (intro conjI impI)
  assume a: "length n_values \<noteq> length time_values" "length n_values \<noteq> 1"
    "length time_values \<noteq> 1"
  then have t: "\<exists>e. try_fit cf f ps n_values time_values = Inl e" for f ps
    by (rule try_fit_mismatch)
  then show "\<forall>f ps. \<exists>e. try_fit cf f ps n_values time_values = Inl e" by blast
  have "(case try_fit cf f ps n_values time_values of Inl e \<Rightarrow> None | Inr r \<Rightarrow> Some r) = None"
    for f ps
    using t [of f ps] by auto
  then show "fit_complexity_models cf n_values time_values =
      map (\<lambda>(name, f, ps). (name, None)) MODELS"
    by (simp add: fit_complexity_models_def)
next
  show "\<exists>e. score_fit [t] (map Some predicted) = Inr (Some 0, e)"
    by (rule score_fit_broadcast)
qed

theorem length_mismatch_is_swallowed_witness:
  "fit_complexity_models (\<lambda>f ns ts p0 maxfev. Inr p0) [1, 2, 3, 4] [7, 9]
   = [(''O(n)'', None), (''O(n'' @ superscript_two @ '')'', None), (''O(n log n)'', None),
      (''O(log n)'', None)]"
  using length_mismatch_is_swallowed [where n_values = "[1, 2, 3, 4]"
      and time_values = "[7, 9]" and cf = "\<lambda>f ns ts p0 maxfev. Inr p0" and t = 0
      and predicted = "[]"]
  by (simp add: MODELS_def)

text \<open>
  The claim C9 as the specification states it fails: with three sizes and two times the
  scoring lines raise \<open>ValueError\<close> for vectors of lengths 2 and 3, and
  \<open>fit_complexity_models\<close> returns normally with the marker \<open>None\<close> for every model.
\<close>

theorem scorer_mismatch_becomes_failed_fit:
  "score_fit [1, 2] (map Some [1, 2, 3]) = Inl ValueError
   \<and> fit_complexity_models (\<lambda>f ns ts p0 maxfev. Inr p0) [1, 2, 3] [1, 2]
     = [(''O(n)'', None), (''O(n'' @ superscript_two @ '')'', None), (''O(n log n)'', None),
        (''O(log n)'', None)]"
  by (simp add: fit_complexity_models_def MODELS_def try_fit_def score_fit_def np_sub_def
      Let_def)

text \<open>
  Claim C5. When every model failed for a method, the selector returns no model and the
  score \<open>-inf\<close>, without raising; the analysis of the method carries \<open>None\<close> as its best
  model; the report section prints \<open>Best fit model: None\<close> for the method, with no
  parameter line; and the analysis still has an entry for every method of the table.
\<close>

theorem all_fits_failed_reports_no_model:
  assumes "(m, a) \<in> set (plot_individual_methods cf avg_df)"
    and "\<forall>(k, e)\<in>set (fit_results a). e = None"
  shows "determine_best_model (fit_results a) = (None, NegInf)
    \<and> best_model a = None \<and> best_r2 a = NegInf
    \<and> best_fit_entry fmt show_params (m, a) =
        [''Method: '' @ m @ newline,
         ''  Best fit model: None'' @ newline,
         ''  R'' @ superscript_two @ '' score: '' @ fmt NegInf @ newline,
         newline]
    \<and> set (best_fit_entry fmt show_params (m, a))
        \<subseteq> set (best_fit_section fmt show_params (plot_individual_methods cf avg_df))
    \<and> map fst (plot_individual_methods cf avg_df) = unique (map method_name avg_df)"
proof -
  from assms(2) have d: "determine_best_model (fit_results a) = (None, NegInf)"
    by (simp add: determine_best_model_def best_model_loop_all_None)
  from assms(1) have a: "a = analyse_method cf avg_df m"
    by (rule plot_individual_methods_mem)
  from d have bm: "best_model a = None" and br: "best_r2 a = NegInf"
    unfolding a by (simp_all add: analyse_method_fields)
  have entry: "best_fit_entry fmt show_params (m, a) =
        [''Method: '' @ m @ newline,
         ''  Best fit model: None'' @ newline,
         ''  R'' @ superscript_two @ '' score: '' @ fmt NegInf @ newline,
         newline]"
    by (simp add: best_fit_entry_def bm br str_of_name_def dict_get_def)
  have sub: "set (best_fit_entry fmt show_params (m, a))
        \<subseteq> set (best_fit_section fmt show_params (plot_individual_methods cf avg_df))"
    using assms(1) unfolding best_fit_section_def by auto
  from d bm br entry sub show ?thesis
    by (simp only: plot_individual_methods_keys simp_thms)
qed

theorem all_fits_failed_reports_no_model_witness:
  "best_model (analyse_method
      (\<lambda>f ns ts p0 maxfev. if length ns < length p0 then Inl TypeError else Inr p0)
      [\<lparr>method_name = ''A'', percentage = 10, num_instances = 100, avg_time_ms = 5,
         std_time_ms = None, min_time_ms = 5, max_time_ms = 5\<rparr>,
       \<lparr>method_name = ''B'', percentage = 10, num_instances = 100, avg_time_ms = 4,
         std_time_ms = Some 0, min_time_ms = 4, max_time_ms = 4\<rparr>,
       \<lparr>method_name = ''B'', percentage = 20, num_instances = 200, avg_time_ms = 9,
         std_time_ms = Some 1, min_time_ms = 8, max_time_ms = 10\<rparr>] ''A'') = None
   \<and> map fst (plot_individual_methods
      (\<lambda>f ns ts p0 maxfev. if length ns < length p0 then Inl TypeError else Inr p0)
      [\<lparr>method_name = ''A'', percentage = 10, num_instances = 100, avg_time_ms = 5,
         std_time_ms = None, min_time_ms = 5, max_time_ms = 5\<rparr>,
       \<lparr>method_name = ''B'', percentage = 10, num_instances = 100, avg_time_ms = 4,
         std_time_ms = Some 0, min_time_ms = 4, max_time_ms = 4\<rparr>,
       \<lparr>method_name = ''B'', percentage = 20, num_instances = 200, avg_time_ms = 9,
         std_time_ms = Some 1, min_time_ms = 8, max_time_ms = 10\<rparr>]) = [''A'', ''B'']"
  (is "best_model (analyse_method ?cf ?avg ''A'') = None \<and> _")
proof -
  have mem: "(''A'', analyse_method ?cf ?avg ''A'') \<in> set (plot_individual_methods ?cf ?avg)"
    by (simp add: plot_individual_methods_def unique_def)
  have fail: "\<forall>(k, e)\<in>set (fit_results (analyse_method ?cf ?avg ''A'')). e = None"
    by (simp add: analyse_method_fields method_series_def fit_complexity_models_def MODELS_def
        try_fit_def)
  from all_fits_failed_reports_no_model [OF mem fail] show ?thesis
    by (simp add: unique_def)
qed


section \<open>Facts about the aggregation\<close>

lemma group_key_aggregate_group: "group_key (aggregate_group k xs) = k"
  by (cases k) (simp add: aggregate_group_def group_key_def)

lemma load_data_keys:
  "map group_key (snd (load_data df)) = sort (remdups (map group_key df))"
  by (simp add: load_data_def o_def group_key_aggregate_group)

lemma load_data_distinct_keys: "distinct (map group_key (snd (load_data df)))"
  by (simp add: load_data_keys)

lemma load_data_key_set: "set (map group_key (snd (load_data df))) = set (map group_key df)"
  by (simp add: load_data_keys)

lemma load_data_mem:
  assumes "a \<in> set (snd (load_data df))"
  shows "a = aggregate_group (group_key a) (group_times df (group_key a))
    \<and> group_key a \<in> group_key ` set df"
proof -
  from assms obtain k where k: "k \<in> set (map group_key df)"
    and a: "a = aggregate_group k (group_times df k)"
    by (auto simp: load_data_def)
  from a have "group_key a = k" by (simp add: group_key_aggregate_group)
  with k a show ?thesis by auto
qed

lemma group_times_nonempty: "k \<in> group_key ` set df \<Longrightarrow> group_times df k \<noteq> []"
  by (auto simp: group_times_def filter_empty_conv)

lemma load_data_distinct_sizes:
  assumes fd: "\<forall>r\<in>set df. \<forall>r'\<in>set df.
      method_name r = method_name r' \<and> num_instances r = num_instances r' \<longrightarrow>
      percentage r = percentage r'"
  shows "distinct (map (\<lambda>a. (method_name a, num_instances a)) (snd (load_data df)))"
proof -
  let ?avg = "snd (load_data df)"
  have d: "distinct (map group_key ?avg)" by (rule load_data_distinct_keys)
  then have da: "distinct ?avg" and inj: "inj_on group_key (set ?avg)"
    by (simp_all add: distinct_map)
  have "inj_on (\<lambda>a. (method_name a, num_instances a)) (set ?avg)"
  proof (rule inj_onI)
    fix a b
    assume a: "a \<in> set ?avg" and b: "b \<in> set ?avg"
      and eq: "(method_name a, num_instances a) = (method_name b, num_instances b)"
    from a obtain r where r: "r \<in> set df" "group_key a = group_key r"
      using load_data_mem by blast
    from b obtain r' where r': "r' \<in> set df" "group_key b = group_key r'"
      using load_data_mem by blast
    from r r' eq have "method_name r = method_name r' \<and> num_instances r = num_instances r'"
      by (simp add: group_key_def)
    with fd r(1) r'(1) have "percentage r = percentage r'" by blast
    with r r' eq have "group_key a = group_key b" by (simp add: group_key_def)
    with inj a b show "a = b" by (auto dest: inj_onD)
  qed
  with da show ?thesis by (simp add: distinct_map)
qed

lemma method_series_set: "set (method_series avg_df m) = {a \<in> set avg_df. method_name a = m}"
  by (auto simp: method_series_def)

lemma method_series_sorted: "sorted (map num_instances (method_series avg_df m))"
  by (simp add: method_series_def)

lemma method_series_distinct_sizes:
  assumes "distinct (map (\<lambda>a. (method_name a, num_instances a)) avg_df)"
  shows "distinct (map num_instances (method_series avg_df m))"
proof -
  from assms have d: "distinct avg_df"
    and inj: "inj_on (\<lambda>a. (method_name a, num_instances a)) (set avg_df)"
    by (simp_all add: distinct_map)
  have "inj_on num_instances (set (method_series avg_df m))"
  proof (rule inj_onI)
    fix a b
    assume "a \<in> set (method_series avg_df m)" "b \<in> set (method_series avg_df m)"
      "num_instances a = num_instances b"
    then have "a \<in> set avg_df" "b \<in> set avg_df"
      "(method_name a, num_instances a) = (method_name b, num_instances b)"
      by (simp_all add: method_series_set)
    with inj show "a = b" by (auto dest: inj_onD)
  qed
  moreover from d have "distinct (method_series avg_df m)"
    by (simp add: method_series_def)
  ultimately show ?thesis by (simp add: distinct_map)
qed

lemma std_time_ms_aggregate_group: "std_time_ms (aggregate_group k xs) = group_std xs"
  by (cases k) (simp add: aggregate_group_def)

lemma group_std_single: "length xs = 1 \<Longrightarrow> group_std xs = None"
  by (simp add: group_std_def)

lemma group_std_identical:
  assumes "2 \<le> length xs" and h: "\<forall>x\<in>set xs. x = c"
  shows "group_std xs = Some 0"
proof -
  from h have xs: "xs = replicate (length xs) c"
    by (simp add: replicate_length_same)
  have "sum_list xs = real (length xs) * c"
    by (subst xs) (simp add: sum_list_replicate)
  moreover from assms(1) have "xs \<noteq> []" by auto
  ultimately have m: "group_mean xs = c" by (simp add: group_mean_def)
  have "(\<Sum>x\<leftarrow>xs. (x - c)\<^sup>2) = 0"
    using h by (induction xs) auto
  with assms(1) show ?thesis by (simp add: group_std_def m)
qed

section \<open>The aggregator\<close>

text \<open>
  Claim C2, as the code has it. The aggregated table has exactly one row for every distinct
  triple of method, percentage and size present in the input, and the mean of that row is
  the arithmetic mean of the times of all input rows with that triple. The series of a method
  holds the rows of that method, sorted ascending by size. When no two input rows share
  method and size but differ in percentage, the table has one row per pair of method and
  size and the sizes of every series are distinct.
\<close>

theorem aggregator_one_point_per_key:
  "distinct (map group_key (snd (load_data df)))
   \<and> set (map group_key (snd (load_data df))) = set (map group_key df)
   \<and> (\<forall>a\<in>set (snd (load_data df)).
        group_times df (group_key a) \<noteq> []
        \<and> avg_time_ms a = sum_list (group_times df (group_key a))
            / real (length (group_times df (group_key a))))
   \<and> sorted (map num_instances (method_series (snd (load_data df)) m))
   \<and> set (method_series (snd (load_data df)) m)
       = {a \<in> set (snd (load_data df)). method_name a = m}
   \<and> ((\<forall>r\<in>set df. \<forall>r'\<in>set df.
          method_name r = method_name r' \<and> num_instances r = num_instances r' \<longrightarrow>
          percentage r = percentage r') \<longrightarrow>
        distinct (map (\<lambda>a. (method_name a, num_instances a)) (snd (load_data df)))
        \<and> distinct (map num_instances (method_series (snd (load_data df)) m)))"
proof (intro conjI ballI impI)
  show "distinct (map group_key (snd (load_data df)))" by (rule load_data_distinct_keys)
  show "set (map group_key (snd (load_data df))) = set (map group_key df)"
    by (rule load_data_key_set)
  show "sorted (map num_instances (method_series (snd (load_data df)) m))"
    by (rule method_series_sorted)
  show "set (method_series (snd (load_data df)) m)
       = {a \<in> set (snd (load_data df)). method_name a = m}"
    by (rule method_series_set)
next
  fix a assume "a \<in> set (snd (load_data df))"
  then have a: "a = aggregate_group (group_key a) (group_times df (group_key a))"
    and k: "group_key a \<in> group_key ` set df"
    using load_data_mem by blast+
  from k show "group_times df (group_key a) \<noteq> []" by (rule group_times_nonempty)
  have "avg_time_ms (aggregate_group k xs) = group_mean xs" for k xs
    by (cases k) (simp add: aggregate_group_def)
  with a show "avg_time_ms a = sum_list (group_times df (group_key a))
            / real (length (group_times df (group_key a)))"
    by (metis group_mean_def)
next
  assume fd: "\<forall>r\<in>set df. \<forall>r'\<in>set df.
          method_name r = method_name r' \<and> num_instances r = num_instances r' \<longrightarrow>
          percentage r = percentage r'"
  then show d: "distinct (map (\<lambda>a. (method_name a, num_instances a)) (snd (load_data df)))"
    by (rule load_data_distinct_sizes)
  then show "distinct (map num_instances (method_series (snd (load_data df)) m))"
    by (rule method_series_distinct_sizes)
qed

theorem aggregator_one_point_per_key_witness:
  "map (\<lambda>a. (method_name a, num_instances a, avg_time_ms a))
     (method_series (snd (load_data
       [\<lparr>method_name = ''A'', percentage = 50, num_instances = 200, time_ms = 20\<rparr>,
        \<lparr>method_name = ''A'', percentage = 100, num_instances = 400, time_ms = 41\<rparr>,
        \<lparr>method_name = ''A'', percentage = 25, num_instances = 100, time_ms = 10\<rparr>,
        \<lparr>method_name = ''A'', percentage = 50, num_instances = 200, time_ms = 22\<rparr>,
        \<lparr>method_name = ''A'', percentage = 25, num_instances = 100, time_ms = 12\<rparr>,
        \<lparr>method_name = ''A'', percentage = 100, num_instances = 400, time_ms = 39\<rparr>])) ''A'')
   = [(''A'', 100, 11), (''A'', 200, 21), (''A'', 400, 40)]"
  using aggregator_one_point_per_key [of
       "[\<lparr>method_name = ''A'', percentage = 50, num_instances = 200, time_ms = 20\<rparr>,
        \<lparr>method_name = ''A'', percentage = 100, num_instances = 400, time_ms = 41\<rparr>,
        \<lparr>method_name = ''A'', percentage = 25, num_instances = 100, time_ms = 10\<rparr>,
        \<lparr>method_name = ''A'', percentage = 50, num_instances = 200, time_ms = 22\<rparr>,
        \<lparr>method_name = ''A'', percentage = 25, num_instances = 100, time_ms = 12\<rparr>,
        \<lparr>method_name = ''A'', percentage = 100, num_instances = 400, time_ms = 39\<rparr>]" "''A''"]
  by (simp add: load_data_def group_key_def group_times_def aggregate_group_def group_mean_def
      method_series_def)

text \<open>
  The claim C2 as the specification states it fails: two observations of one method with
  the same size and different percentages give two aggregated rows for that pair of method
  and size, neither holding the mean 6 of the two times, and the series of the method holds
  the size twice.
\<close>

theorem aggregator_splits_size_by_percentage:
  "map (\<lambda>a. (method_name a, num_instances a, avg_time_ms a))
     (snd (load_data
       [\<lparr>method_name = ''A'', percentage = 10, num_instances = 100, time_ms = 5\<rparr>,
        \<lparr>method_name = ''A'', percentage = 20, num_instances = 100, time_ms = 7\<rparr>]))
   = [(''A'', 100, 5), (''A'', 100, 7)]
   \<and> map num_instances (method_series (snd (load_data
       [\<lparr>method_name = ''A'', percentage = 10, num_instances = 100, time_ms = 5\<rparr>,
        \<lparr>method_name = ''A'', percentage = 20, num_instances = 100, time_ms = 7\<rparr>])) ''A'')
     = [100, 100]"
  by (simp add: load_data_def group_key_def group_times_def aggregate_group_def group_mean_def
      method_series_def)

text \<open>
  Claim C3, as the code has it. The standard deviation of a group of \<open>k \<ge> 2\<close> identical
  observations is exactly 0. For a group of a single observation it is \<open>nan\<close>, the sample
  standard deviation of pandas being undefined there. The aggregated row has no sample
  count.
\<close>

theorem group_std_of_identical_observations:
  "\<forall>a\<in>set (snd (load_data df)).
     (length (group_times df (group_key a)) = 1 \<longrightarrow> std_time_ms a = None)
     \<and> (2 \<le> length (group_times df (group_key a))
          \<and> (\<forall>t\<in>set (group_times df (group_key a)). t = c) \<longrightarrow>
        std_time_ms a = Some 0)"
proof (intro ballI conjI impI)
  fix a assume "a \<in> set (snd (load_data df))"
  then have a: "a = aggregate_group (group_key a) (group_times df (group_key a))"
    using load_data_mem by blast
  then have s: "std_time_ms a = group_std (group_times df (group_key a))"
    by (metis std_time_ms_aggregate_group)
  show "std_time_ms a = None" if "length (group_times df (group_key a)) = 1"
    using that by (simp add: s group_std_single)
  show "std_time_ms a = Some 0"
    if "2 \<le> length (group_times df (group_key a))
          \<and> (\<forall>t\<in>set (group_times df (group_key a)). t = c)"
    using that by (auto simp: s intro: group_std_identical)
qed

theorem group_std_of_identical_observations_witness:
  "map (\<lambda>a. (method_name a, std_time_ms a))
     (snd (load_data
       [\<lparr>method_name = ''A'', percentage = 10, num_instances = 100, time_ms = 5\<rparr>,
        \<lparr>method_name = ''B'', percentage = 10, num_instances = 100, time_ms = 7\<rparr>,
        \<lparr>method_name = ''A'', percentage = 10, num_instances = 100, time_ms = 5\<rparr>]))
   = [(''A'', Some 0), (''B'', None)]"
  using group_std_of_identical_observations [of
       "[\<lparr>method_name = ''A'', percentage = 10, num_instances = 100, time_ms = 5\<rparr>,
        \<lparr>method_name = ''B'', percentage = 10, num_instances = 100, time_ms = 7\<rparr>,
        \<lparr>method_name = ''A'', percentage = 10, num_instances = 100, time_ms = 5\<rparr>]" 5]
  by (simp add: load_data_def group_key_def group_times_def aggregate_group_def group_mean_def
      group_std_def)

text \<open>
  The claim C3 as the specification states it fails for a group of one observation, whose
  standard deviation is \<open>nan\<close> and not 0.
\<close>

theorem single_observation_std_is_nan:
  "map std_time_ms
     (snd (load_data
       [\<lparr>method_name = ''A'', percentage = 10, num_instances = 100, time_ms = 5\<rparr>]))
   = [None]"
  by (simp add: load_data_def group_key_def group_times_def aggregate_group_def group_std_def)

text \<open>
  Claim C7, as the code has it. On a results file with no content \<open>load_data\<close> fails with
  the \<open>EmptyDataError\<close> of pandas, raised by \<open>read_csv\<close> before any aggregation or
  fitting, and the failure leaves \<open>main\<close>; this is the only file on which the analysis
  fails. On a results file with a header and zero observations nothing is raised:
  \<open>load_data\<close> returns the empty aggregated table, the per-method analysis is the empty
  mapping, with no fit attempted, and the best-fit section of the report is empty.
\<close>

theorem empty_file_fails_header_only_does_not:
  "load_data_csv No_columns = Inl EmptyDataError
   \<and> main_analysis cf No_columns = Inl EmptyDataError
   \<and> (main_analysis cf csv = Inl e) = (csv = No_columns \<and> e = EmptyDataError)
   \<and> load_data_csv (Header_and_rows []) = Inr ([], [])
   \<and> main_analysis cf (Header_and_rows []) = Inr []
   \<and> best_fit_section fmt show_params [] = []"
  by (cases csv)
    (auto simp: load_data_csv_def read_csv_def main_analysis_def load_data_def
      plot_individual_methods_def unique_def best_fit_section_def split: prod.splits)

text \<open>
  The claim C7 as the specification states it fails: on a results file that holds only
  the header line, so zero observations, the analysis returns normally.
\<close>

theorem header_only_file_raises_nothing:
  "main_analysis (\<lambda>f ns ts p0 maxfev. Inr p0) (Header_and_rows []) = Inr []"
  by (simp add: load_data_csv_def read_csv_def main_analysis_def load_data_def
      plot_individual_methods_def unique_def)

end
